theory Spec2Isabelle
  imports Main "HOL-Library.Product_Lexorder"
begin

section \<open>Entities and tables\<close>

text \<open>
  The album repository (\<^verbatim>\<open>server/src/infra/repositories/album.repository.ts\<close>)
  talks to three tables: \<^verbatim>\<open>albums\<close>, \<^verbatim>\<open>assets\<close> and the junction table
  \<^verbatim>\<open>albums_assets_assets\<close>.
\<close>

text \<open>
  Modelled from the spec: the entity class \<^verbatim>\<open>AlbumEntity\<close>, which the repository
  imports from \<^verbatim>\<open>../entities\<close>. Its columns are the ones of the specification's
  Album (\<^verbatim>\<open>id\<close>, \<^verbatim>\<open>ownerId\<close>, the thumbnail reference, \<^verbatim>\<open>createdAt\<close>), under
  the names the queries use; \<^verbatim>\<open>id\<close> is \<open>album_id\<close> here. The record is
  extensible: every further column of the entity lives in the record's extension.
\<close>

record AlbumEntity =
  album_id :: string
  ownerId :: string
  albumThumbnailAssetId :: "string option"
  createdAt :: int

text \<open>
  Modelled from the spec: the entity class \<^verbatim>\<open>AssetEntity\<close>, imported likewise, with
  the columns of the specification's Asset; \<^verbatim>\<open>id\<close> is \<open>asset_id\<close> here and the time
  stamp \<^verbatim>\<open>fileCreatedAt\<close> is a number.
\<close>

record AssetEntity =
  asset_id :: string
  fileCreatedAt :: int

text \<open>A row of the junction table, with the two columns the queries name.\<close>

record albums_assets_row =
  albumsId :: string
  assetsId :: string

text \<open>
  A table is the list of its rows. Beside its tables the store has a plan for the
  subquery that joins \<^verbatim>\<open>assets\<close> with the junction table: where the
  \<^verbatim>\<open>ORDER BY\<close> clause of the query leaves joined rows unordered, the store yields them
  by the rank its plan gives them. The plan is the store's own choice; no query of the
  repository sets it or reads it, and it is not part of the content of any table.
\<close>

record 'm database =
  albums :: "'m AlbumEntity_scheme list"
  assets :: "AssetEntity list"
  albums_assets_assets :: "albums_assets_row list"
  plan :: "AssetEntity \<times> albums_assets_row \<Rightarrow> nat"

section \<open>The data source\<close>

text \<open>
  Every repository method awaits one statement of the query builder and has no
  \<^verbatim>\<open>try/catch\<close>: a rejected promise leaves the method as it is. The data source
  carries the tables, whether the store can be reached, whether its driver reports the
  number of rows a statement affected (\<^verbatim>\<open>UpdateResult.affected\<close> is
  \<^verbatim>\<open>number | undefined\<close>), and the number of statements the store has received.
  A statement is atomic: the store applies it as a whole or, when it cannot be reached,
  not at all.

  The error of a rejected promise is an object with the name of its class and a
  message. Which error the driver raises when the store cannot be reached is the
  driver's matter (a \<^verbatim>\<open>QueryFailedError\<close>, a connection error), so the data source
  carries it as \<open>rejection\<close>; the repository has no error class of its own.
\<close>

datatype error = Error (errorName: string) (errorMessage: string)

record 'm DataSource =
  tables :: "'m database"
  connected :: bool
  rejection :: error
  reportsAffected :: bool
  statements :: nat

record UpdateResult =
  affected :: "nat option"

definition getMany ::
  "'m DataSource \<Rightarrow> ('m database \<Rightarrow> 'r) \<Rightarrow> (error + 'r) \<times> 'm DataSource" where
  "getMany ds query =
     (if connected ds
      then (Inr (query (tables ds)), ds\<lparr>statements := Suc (statements ds)\<rparr>)
      else (Inl (rejection ds), ds))"

definition execute ::
  "'m DataSource \<Rightarrow> ('m database \<Rightarrow> 'm database \<times> nat) \<Rightarrow>
     (error + UpdateResult) \<times> 'm DataSource" where
  "execute ds statement =
     (if connected ds
      then (case statement (tables ds) of
              (db', rowCount) \<Rightarrow>
                (Inr \<lparr>affected = (if reportsAffected ds then Some rowCount else None)\<rparr>,
                 ds\<lparr>tables := db', statements := Suc (statements ds)\<rparr>))
      else (Inl (rejection ds), ds))"

section \<open>The thumbnail queries\<close>

text \<open>\<^verbatim>\<open>EXISTS (subquery)\<close>: the subquery yields at least one row.\<close>

definition EXISTS :: "'r list \<Rightarrow> bool" where
  "EXISTS rows = (rows \<noteq> [])"

text \<open>
  \<^verbatim>\<open>SELECT 1 FROM albums_assets_assets albums_assets
     WHERE "albums"."id" = "albums_assets"."albumsId"\<close>,
  a subquery correlated with the row of \<^verbatim>\<open>albums\<close> under test. Both
  \<^verbatim>\<open>getInvalidThumbnail\<close> and \<^verbatim>\<open>updateThumbnails\<close> build it with the same text.
\<close>

definition albumHasAssets ::
  "'m database \<Rightarrow> 'a AlbumEntity_scheme \<Rightarrow> albums_assets_row list" where
  "albumHasAssets db albums_row =
     filter (\<lambda>albums_assets. album_id albums_row = albumsId albums_assets)
       (albums_assets_assets db)"

text \<open>
  The clone with \<^verbatim>\<open>AND "albums"."albumThumbnailAssetId" = "albums_assets"."assetsId"\<close>.
  In SQL the comparison with a \<^verbatim>\<open>NULL\<close> thumbnail is not true, as here.
\<close>

definition albumContainsThumbnail ::
  "'m database \<Rightarrow> 'a AlbumEntity_scheme \<Rightarrow> albums_assets_row list" where
  "albumContainsThumbnail db albums_row =
     filter (\<lambda>albums_assets. album_id albums_row = albumsId albums_assets \<and>
                albumThumbnailAssetId albums_row = Some (assetsId albums_assets))
       (albums_assets_assets db)"

text \<open>
  The \<^verbatim>\<open>where(...).orWhere(...)\<close> of both methods:
  \<^verbatim>\<open>"albumThumbnailAssetId" IS NULL AND EXISTS (albumHasAssets)
     OR "albumThumbnailAssetId" IS NOT NULL AND NOT EXISTS (albumContainsThumbnail)\<close>.
\<close>

definition invalidThumbnailWhere :: "'m database \<Rightarrow> 'a AlbumEntity_scheme \<Rightarrow> bool" where
  "invalidThumbnailWhere db albums_row =
     (albumThumbnailAssetId albums_row = None \<and> EXISTS (albumHasAssets db albums_row)
      \<or> albumThumbnailAssetId albums_row \<noteq> None \<and>
        \<not> EXISTS (albumContainsThumbnail db albums_row))"

definition getInvalidThumbnail ::
  "'m DataSource \<Rightarrow> (error + string list) \<times> 'm DataSource" where
  "getInvalidThumbnail ds =
     (case getMany ds (\<lambda>db. filter (invalidThumbnailWhere db) (albums db)) of
        (Inl e, ds') \<Rightarrow> (Inl e, ds')
      | (Inr found, ds') \<Rightarrow> (Inr (map album_id found), ds'))"

text \<open>
  \<^verbatim>\<open>ORDER BY key DESC\<close>, on rows the store yields by the rank \<open>rank\<close>: the rows
  come by descending key, and rows with equal keys, whose order SQL leaves to the store,
  come by rank (rows that agree in key and rank come as they are stored).
\<close>

definition orderBy_DESC :: "('r \<Rightarrow> nat) \<Rightarrow> ('r \<Rightarrow> int) \<Rightarrow> 'r list \<Rightarrow> 'r list" where
  "orderBy_DESC rank key rows = sort_key (\<lambda>r. (- key r, rank r)) rows"

text \<open>
  The subquery for a new thumbnail, correlated with the row of \<^verbatim>\<open>albums\<close> being
  updated:
  \<^verbatim>\<open>SELECT albums_assets2.assetsId FROM assets, albums_assets_assets albums_assets2
     WHERE albums_assets2.assetsId = assets.id AND albums_assets2.albumsId = "albums"."id"
     ORDER BY assets.fileCreatedAt DESC LIMIT 1\<close>.
  As a scalar subquery it is \<^verbatim>\<open>NULL\<close> when it yields no row. The query has no
  sort key beside \<^verbatim>\<open>fileCreatedAt\<close>: among joined rows with the same
  \<^verbatim>\<open>fileCreatedAt\<close> the first is the one the store's plan ranks first.
\<close>

definition newThumbnail :: "'m database \<Rightarrow> 'a AlbumEntity_scheme \<Rightarrow> string option" where
  "newThumbnail db albums_row =
     (case take 1
        (orderBy_DESC (plan db) (\<lambda>(assets_row, albums_assets2). fileCreatedAt assets_row)
          (filter (\<lambda>(assets_row, albums_assets2).
                      assetsId albums_assets2 = asset_id assets_row \<and>
                      albumsId albums_assets2 = album_id albums_row)
             (List.product (assets db) (albums_assets_assets db)))) of
        [] \<Rightarrow> None
      | (assets_row, albums_assets2) # _ \<Rightarrow> Some (assetsId albums_assets2))"

text \<open>
  The statement \<^verbatim>\<open>UPDATE albums SET "albumThumbnailAssetId" = (newThumbnail) WHERE ...\<close>:
  the tables after it and the number of rows it matched.
\<close>

definition updateAlbums :: "'m database \<Rightarrow> 'm database \<times> nat" where
  "updateAlbums db =
     (db\<lparr>albums :=
           map (\<lambda>albums_row.
                  if invalidThumbnailWhere db albums_row
                  then albums_row\<lparr>albumThumbnailAssetId := newThumbnail db albums_row\<rparr>
                  else albums_row)
             (albums db)\<rparr>,
      length (filter (invalidThumbnailWhere db) (albums db)))"

definition updateThumbnails ::
  "'m DataSource \<Rightarrow> (error + nat option) \<times> 'm DataSource" where
  "updateThumbnails ds =
     (case execute ds updateAlbums of
        (Inl e, ds') \<Rightarrow> (Inl e, ds')
      | (Inr result, ds') \<Rightarrow> (Inr (affected result), ds'))"





section \<open>Asset counts\<close>

record AlbumAssetCount =
  albumId :: string
  assetCount :: nat

text \<open>
  \<^verbatim>\<open>SELECT album.id, COUNT(albums_assets.assetsId) AS asset_count FROM albums album
     LEFT JOIN albums_assets_assets albums_assets ON albums_assets.albumsId = album.id
     WHERE album.id IN (:...ids) GROUP BY album.id\<close>.
  A left join keeps an album without a matching row once, with \<^verbatim>\<open>NULL\<close> columns
  on the right; \<^verbatim>\<open>COUNT(column)\<close> counts the rows of a group where the column is not
  \<^verbatim>\<open>NULL\<close>.
\<close>

definition leftJoin ::
  "'m database \<Rightarrow> ('m AlbumEntity_scheme \<times> albums_assets_row option) list" where
  "leftJoin db =
     concat (map (\<lambda>album.
        case filter (\<lambda>albums_assets. albumsId albums_assets = album_id album)
               (albums_assets_assets db) of
          [] \<Rightarrow> [(album, None)]
        | matching \<Rightarrow> map (\<lambda>albums_assets. (album, Some albums_assets)) matching)
       (albums db))"

definition countByAlbums :: "string list \<Rightarrow> 'm database \<Rightarrow> (string \<times> nat) list" where
  "countByAlbums ids db =
     (let joined = filter (\<lambda>(album, albums_assets). album_id album \<in> set ids) (leftJoin db)
      in map (\<lambda>group.
                (group,
                 length (filter (\<lambda>(album, albums_assets).
                                   album_id album = group \<and> albums_assets \<noteq> None) joined)))
           (remdups (map (\<lambda>(album, albums_assets). album_id album) joined)))"

definition getAssetCountForIds ::
  "string list \<Rightarrow> 'm DataSource \<Rightarrow> (error + AlbumAssetCount list) \<times> 'm DataSource" where
  "getAssetCountForIds ids ds =
     (if length ids = 0 then (Inr [], ds)
      else (case getMany ds (countByAlbums ids) of
              (Inl e, ds') \<Rightarrow> (Inl e, ds')
            | (Inr found, ds') \<Rightarrow>
                (Inr (map (\<lambda>(album_id, asset_count).
                             \<lparr>albumId = album_id, assetCount = asset_count\<rparr>) found),
                 ds')))"

section \<open>The thumbnail invariant in the specification's words\<close>

text \<open>The member assets of an album: the asset identifiers the junction table relates to it.\<close>

definition members :: "'m database \<Rightarrow> string \<Rightarrow> string set" where
  "members db aid =
     set (map assetsId (filter (\<lambda>r. albumsId r = aid) (albums_assets_assets db)))"

text \<open>
  An album violates the invariant when its thumbnail is \<^verbatim>\<open>NULL\<close> although it has
  a member asset, or when its thumbnail is an asset that is not one of its members.
\<close>

definition violatesInvariant :: "'m database \<Rightarrow> 'a AlbumEntity_scheme \<Rightarrow> bool" where
  "violatesInvariant db a =
     (case albumThumbnailAssetId a of
        None \<Rightarrow> members db (album_id a) \<noteq> {}
      | Some t \<Rightarrow> t \<notin> members db (album_id a))"

text \<open>
  Modelled from the spec: the constraints of the schema, whose declaration is with the
  entities. Membership is a relation between albums and assets, so each row of the
  junction table names a stored asset (its foreign key); the identifier of an album is
  unique (the primary key of \<^verbatim>\<open>albums\<close>).
\<close>

definition assetsForeignKey :: "'m database \<Rightarrow> bool" where
  "assetsForeignKey db =
     list_all (\<lambda>r. assetsId r \<in> set (map asset_id (assets db))) (albums_assets_assets db)"

definition albumsPrimaryKey :: "'m database \<Rightarrow> bool" where
  "albumsPrimaryKey db = distinct (map album_id (albums db))"


text \<open>The time stamps of the stored assets that are members of an album.\<close>

definition memberTimes :: "'m database \<Rightarrow> string \<Rightarrow> int set" where
  "memberTimes db aid =
     set (map fileCreatedAt (filter (\<lambda>s. asset_id s \<in> members db aid) (assets db)))"

section \<open>Example stores\<close>

text \<open>
  The scenarios of the specification in one store: album X has the assets a1 and a2 (a2
  the newer) and no thumbnail; album Y is empty with the stale thumbnail a5; album Z has
  the asset a7 and the thumbnail a9, which is not a member; album W has the asset a1 as
  its only member and as its thumbnail.
\<close>

definition scenarioTables :: "unit database" where
  "scenarioTables =
     \<lparr>albums =
        [\<lparr>album_id = ''X'', ownerId = ''u'', albumThumbnailAssetId = None, createdAt = 10\<rparr>,
         \<lparr>album_id = ''Y'', ownerId = ''u'', albumThumbnailAssetId = Some ''a5'', createdAt = 11\<rparr>,
         \<lparr>album_id = ''Z'', ownerId = ''v'', albumThumbnailAssetId = Some ''a9'', createdAt = 12\<rparr>,
         \<lparr>album_id = ''W'', ownerId = ''v'', albumThumbnailAssetId = Some ''a1'', createdAt = 13\<rparr>],
      assets =
        [\<lparr>asset_id = ''a1'', fileCreatedAt = 1\<rparr>,
         \<lparr>asset_id = ''a2'', fileCreatedAt = 6\<rparr>,
         \<lparr>asset_id = ''a7'', fileCreatedAt = 3\<rparr>,
         \<lparr>asset_id = ''a9'', fileCreatedAt = 4\<rparr>],
      albums_assets_assets =
        [\<lparr>albumsId = ''X'', assetsId = ''a1''\<rparr>,
         \<lparr>albumsId = ''X'', assetsId = ''a2''\<rparr>,
         \<lparr>albumsId = ''Z'', assetsId = ''a7''\<rparr>,
         \<lparr>albumsId = ''W'', assetsId = ''a1''\<rparr>],
      plan = (\<lambda>joined. 0)\<rparr>"

definition scenarioSource :: "unit DataSource" where
  "scenarioSource =
     \<lparr>tables = scenarioTables, connected = True,
      rejection = Error ''QueryFailedError'' ''connect ECONNREFUSED'',
      reportsAffected = True, statements = 0\<rparr>"

text \<open>The tables of the scenarios after the reconciliation.\<close>

definition reconciledTables :: "unit database" where
  "reconciledTables =
     scenarioTables\<lparr>albums :=
        [\<lparr>album_id = ''X'', ownerId = ''u'', albumThumbnailAssetId = Some ''a2'', createdAt = 10\<rparr>,
         \<lparr>album_id = ''Y'', ownerId = ''u'', albumThumbnailAssetId = None, createdAt = 11\<rparr>,
         \<lparr>album_id = ''Z'', ownerId = ''v'', albumThumbnailAssetId = Some ''a7'', createdAt = 12\<rparr>,
         \<lparr>album_id = ''W'', ownerId = ''v'', albumThumbnailAssetId = Some ''a1'', createdAt = 13\<rparr>]\<rparr>"

definition reconciledSource :: "unit DataSource" where
  "reconciledSource =
     \<lparr>tables = reconciledTables, connected = True,
      rejection = Error ''QueryFailedError'' ''connect ECONNREFUSED'',
      reportsAffected = True, statements = 1\<rparr>"


text \<open>
  Two stores with the same tables, row for row: album T has no thumbnail and the members
  b1 and b2, created at the same time. The stores differ in their plan only: the first
  ranks the joined rows of b1 first, the second those of b2.
\<close>

definition tiedTables :: "string \<Rightarrow> unit database" where
  "tiedTables first =
     \<lparr>albums =
        [\<lparr>album_id = ''T'', ownerId = ''u'', albumThumbnailAssetId = None, createdAt = 10\<rparr>],
      assets =
        [\<lparr>asset_id = ''b1'', fileCreatedAt = 5\<rparr>,
         \<lparr>asset_id = ''b2'', fileCreatedAt = 5\<rparr>],
      albums_assets_assets =
        [\<lparr>albumsId = ''T'', assetsId = ''b1''\<rparr>,
         \<lparr>albumsId = ''T'', assetsId = ''b2''\<rparr>],
      plan = (\<lambda>(assets_row, albums_assets2).
                if asset_id assets_row = first then 0 else 1)\<rparr>"

definition tiedSource1 :: "unit DataSource" where
  "tiedSource1 =
     \<lparr>tables = tiedTables ''b1'', connected = True,
      rejection = Error ''QueryFailedError'' ''connect ECONNREFUSED'',
      reportsAffected = True, statements = 0\<rparr>"

definition tiedSource2 :: "unit DataSource" where
  "tiedSource2 =
     \<lparr>tables = tiedTables ''b2'', connected = True,
      rejection = Error ''QueryFailedError'' ''connect ECONNREFUSED'',
      reportsAffected = True, statements = 0\<rparr>"

section \<open>Properties of the queries\<close>

subsection \<open>The \<open>WHERE\<close> clause and the invariant\<close>

lemma members_iff:
  "t \<in> members db k \<longleftrightarrow>
     (\<exists>r\<in>set (albums_assets_assets db). albumsId r = k \<and> assetsId r = t)"
proof -
  have "\<And>xs::albums_assets_row list.
          t \<in> set (map assetsId (filter (\<lambda>r. albumsId r = k) xs)) \<longleftrightarrow>
          (\<exists>r\<in>set xs. albumsId r = k \<and> assetsId r = t)"
    by auto
  then show ?thesis
    unfolding members_def .
qed

lemma members_empty_iff:
  "members db k = {} \<longleftrightarrow> (\<forall>r\<in>set (albums_assets_assets db). albumsId r \<noteq> k)"
  by (auto simp: members_def filter_empty_conv)

lemma EXISTS_albumHasAssets:
  "EXISTS (albumHasAssets db a) \<longleftrightarrow> members db (album_id a) \<noteq> {}"
proof -
  have "EXISTS (albumHasAssets db a) \<longleftrightarrow>
          (\<exists>r\<in>set (albums_assets_assets db). album_id a = albumsId r)"
    by (simp add: EXISTS_def albumHasAssets_def filter_empty_conv)
  also have "\<dots> \<longleftrightarrow> (\<exists>r\<in>set (albums_assets_assets db). albumsId r = album_id a)"
    by (rule bex_cong) (rule refl, rule eq_commute)
  finally show ?thesis
    by (simp add: members_empty_iff)
qed

lemma EXISTS_albumContainsThumbnail:
  assumes "albumThumbnailAssetId a = Some t"
  shows "EXISTS (albumContainsThumbnail db a) \<longleftrightarrow> t \<in> members db (album_id a)"
proof -
  have "EXISTS (albumContainsThumbnail db a) \<longleftrightarrow>
          (\<exists>r\<in>set (albums_assets_assets db). album_id a = albumsId r \<and> t = assetsId r)"
    by (simp add: EXISTS_def albumContainsThumbnail_def filter_empty_conv assms)
  also have "\<dots> \<longleftrightarrow>
          (\<exists>r\<in>set (albums_assets_assets db). albumsId r = album_id a \<and> assetsId r = t)"
    by (rule bex_cong) (rule refl, metis)
  finally show ?thesis
    by (simp add: members_iff)
qed

lemma invalidThumbnailWhere_iff:
  "invalidThumbnailWhere db a = violatesInvariant db a"
proof (cases "albumThumbnailAssetId a")
  case None
  then show ?thesis
    by (simp add: invalidThumbnailWhere_def violatesInvariant_def EXISTS_albumHasAssets)
next
  case (Some t)
  then show ?thesis
    by (simp add: invalidThumbnailWhere_def violatesInvariant_def
        EXISTS_albumContainsThumbnail)
qed

lemma members_albums_update: "members (db\<lparr>albums := xs\<rparr>) aid = members db aid"
  by (simp add: members_def)

lemma violatesInvariant_albums_update:
  "violatesInvariant (db\<lparr>albums := xs\<rparr>) a = violatesInvariant db a"
  by (simp add: violatesInvariant_def members_albums_update split: option.split)

subsection \<open>The new thumbnail\<close>

lemma orderBy_DESC_Nil: "orderBy_DESC rank key rows = [] \<longleftrightarrow> rows = []"
proof -
  have "length (orderBy_DESC rank key rows) = length rows"
    by (simp add: orderBy_DESC_def)
  then show ?thesis
    by (metis length_0_conv)
qed

lemma orderBy_DESC_Cons:
  assumes "orderBy_DESC rank key rows = r # rest"
  shows "r \<in> set rows \<and> (\<forall>r'\<in>set rows. key r' \<le> key r) \<and>
         (\<forall>r'\<in>set rows. key r' = key r \<longrightarrow> rank r \<le> rank r')"
proof -
  have s: "set (orderBy_DESC rank key rows) = set rows"
    by (simp add: orderBy_DESC_def)
  have "sorted (map (\<lambda>r. (- key r, rank r)) (orderBy_DESC rank key rows))"
    by (simp add: orderBy_DESC_def)
  then have "\<forall>r'\<in>set rest. (- key r, rank r) \<le> (- key r', rank r')"
    by (simp add: assms)
  then have "\<forall>r'\<in>set rest. key r' \<le> key r \<and> (key r' = key r \<longrightarrow> rank r \<le> rank r')"
    by auto
  moreover have "set rows = insert r (set rest)"
    using s by (simp add: assms)
  ultimately show ?thesis
    by auto
qed

lemma set_joined:
  "(s, m) \<in> set (filter (\<lambda>(assets_row, albums_assets2).
                      assetsId albums_assets2 = asset_id assets_row \<and>
                      albumsId albums_assets2 = k)
             (List.product A M)) \<longleftrightarrow>
   s \<in> set A \<and> m \<in> set M \<and> assetsId m = asset_id s \<and> albumsId m = k"
  by auto

lemma newThumbnail_cases:
  "newThumbnail db a = None \<and> (\<forall>s\<in>set (assets db). asset_id s \<notin> members db (album_id a))
   \<or> (\<exists>s\<in>set (assets db).
         newThumbnail db a = Some (asset_id s) \<and>
         asset_id s \<in> members db (album_id a) \<and>
         (\<forall>s'\<in>set (assets db).
            asset_id s' \<in> members db (album_id a) \<longrightarrow> fileCreatedAt s' \<le> fileCreatedAt s))"
proof -
  define J where "J = filter (\<lambda>(assets_row, albums_assets2).
                      assetsId albums_assets2 = asset_id assets_row \<and>
                      albumsId albums_assets2 = album_id a)
             (List.product (assets db) (albums_assets_assets db))"
  define key :: "AssetEntity \<times> albums_assets_row \<Rightarrow> int"
    where "key = (\<lambda>(assets_row, albums_assets2). fileCreatedAt assets_row)"
  have nt: "newThumbnail db a =
      (case take 1 (orderBy_DESC (plan db) key J) of [] \<Rightarrow> None
       | (assets_row, albums_assets2) # _ \<Rightarrow> Some (assetsId albums_assets2))"
    by (simp add: newThumbnail_def J_def key_def)
  have J: "\<And>s m. (s, m) \<in> set J \<longleftrightarrow>
      s \<in> set (assets db) \<and> m \<in> set (albums_assets_assets db) \<and>
      assetsId m = asset_id s \<and> albumsId m = album_id a"
    unfolding J_def by (rule set_joined)
  have mem: "\<And>s. s \<in> set (assets db) \<Longrightarrow>
      asset_id s \<in> members db (album_id a) \<longleftrightarrow> (\<exists>m. (s, m) \<in> set J)"
    by (auto simp: members_iff J)
  show ?thesis
  proof (cases "orderBy_DESC (plan db) key J")
    case Nil
    then have "J = []"
      by (simp add: orderBy_DESC_Nil)
    then have "\<forall>s\<in>set (assets db). asset_id s \<notin> members db (album_id a)"
      by (simp add: mem)
    moreover have "newThumbnail db a = None"
      by (simp add: nt Nil)
    ultimately show ?thesis
      by blast
  next
    case (Cons r rest)
    obtain s m where r: "r = (s, m)"
      by (cases r)
    from orderBy_DESC_Cons [OF Cons]
    have in_J: "(s, m) \<in> set J" and top: "\<forall>r'\<in>set J. key r' \<le> key (s, m)"
      by (simp_all add: r)
    have s: "s \<in> set (assets db)" and eq: "assetsId m = asset_id s"
      using in_J by (simp_all add: J)
    have "newThumbnail db a = Some (asset_id s)"
      by (simp add: nt Cons r eq)
    moreover have "asset_id s \<in> members db (album_id a)"
      using in_J s mem by blast
    moreover have "fileCreatedAt s' \<le> fileCreatedAt s"
      if "s' \<in> set (assets db)" "asset_id s' \<in> members db (album_id a)" for s'
    proof -
      from that obtain m' where "(s', m') \<in> set J"
        using mem by blast
      with top have "key (s', m') \<le> key (s, m)"
        by blast
      then show ?thesis
        by (simp add: key_def)
    qed
    ultimately show ?thesis
      using s by blast
  qed
qed

lemma no_stored_member_iff:
  assumes "assetsForeignKey db"
  shows "(\<forall>s\<in>set (assets db). asset_id s \<notin> members db k) \<longleftrightarrow> members db k = {}"
proof
  assume none: "\<forall>s\<in>set (assets db). asset_id s \<notin> members db k"
  show "members db k = {}"
  proof (rule ccontr)
    assume "members db k \<noteq> {}"
    then obtain t where t: "t \<in> members db k"
      by blast
    then obtain r where "r \<in> set (albums_assets_assets db)" and "assetsId r = t"
      by (auto simp: members_iff)
    with assms have "t \<in> set (map asset_id (assets db))"
      by (auto simp: assetsForeignKey_def list_all_iff)
    then obtain s where "s \<in> set (assets db)" and "asset_id s = t"
      by auto
    with none t show False
      by blast
  qed
next
  assume "members db k = {}"
  then show "\<forall>s\<in>set (assets db). asset_id s \<notin> members db k"
    by simp
qed

lemma memberTimes_Max:
  assumes "s \<in> set (assets db)" and "asset_id s \<in> members db k"
    and "\<forall>s'\<in>set (assets db). asset_id s' \<in> members db k \<longrightarrow> fileCreatedAt s' \<le> fileCreatedAt s"
  shows "fileCreatedAt s = Max (memberTimes db k)"
proof -
  have "fileCreatedAt s \<in> memberTimes db k"
    using assms(1,2) by (simp add: memberTimes_def)
  moreover have "\<forall>y\<in>memberTimes db k. y \<le> fileCreatedAt s"
    using assms(3) by (auto simp: memberTimes_def)
  moreover have "finite (memberTimes db k)"
    by (simp add: memberTimes_def)
  ultimately show ?thesis
    by (metis Max_eqI)
qed

text \<open>
  What the subquery selects, in the words of the specification: nothing when the album
  has no member, and otherwise a member asset whose \<open>fileCreatedAt\<close> is the maximum
  among the album's members.
\<close>

lemma newThumbnail_newest:
  assumes "assetsForeignKey db"
  shows "if members db (album_id a) = {} then newThumbnail db a = None
         else \<exists>s\<in>set (assets db).
                newThumbnail db a = Some (asset_id s) \<and>
                asset_id s \<in> members db (album_id a) \<and>
                fileCreatedAt s = Max (memberTimes db (album_id a))"
proof (cases "members db (album_id a) = {}")
  case True
  then have "\<not> (\<exists>s\<in>set (assets db). asset_id s \<in> members db (album_id a))"
    by simp
  with newThumbnail_cases [of db a] True show ?thesis
    by auto
next
  case False
  then have "\<not> (\<forall>s\<in>set (assets db). asset_id s \<notin> members db (album_id a))"
    by (simp add: no_stored_member_iff [OF assms])
  with newThumbnail_cases [of db a] obtain s where
    s: "s \<in> set (assets db)" "newThumbnail db a = Some (asset_id s)"
    "asset_id s \<in> members db (album_id a)"
    "\<forall>s'\<in>set (assets db).
        asset_id s' \<in> members db (album_id a) \<longrightarrow> fileCreatedAt s' \<le> fileCreatedAt s"
    by blast
  have "fileCreatedAt s = Max (memberTimes db (album_id a))"
    by (rule memberTimes_Max [OF s(1) s(3) s(4)])
  with s have "\<exists>s\<in>set (assets db).
                newThumbnail db a = Some (asset_id s) \<and>
                asset_id s \<in> members db (album_id a) \<and>
                fileCreatedAt s = Max (memberTimes db (album_id a))"
    by blast
  with False show ?thesis
    by simp
qed

subsection \<open>The update statement\<close>

text \<open>The row the statement writes for a row of \<open>albums\<close>.\<close>

lemma albums_updateAlbums:
  "albums (fst (updateAlbums db)) =
     map (\<lambda>a. if violatesInvariant db a
               then a\<lparr>albumThumbnailAssetId := newThumbnail db a\<rparr> else a) (albums db)"
  by (simp add: updateAlbums_def invalidThumbnailWhere_iff)

lemma rowCount_updateAlbums:
  "snd (updateAlbums db) = length (filter (violatesInvariant db) (albums db))"
  by (simp add: updateAlbums_def invalidThumbnailWhere_iff [abs_def])

lemma others_updateAlbums:
  "assets (fst (updateAlbums db)) = assets db"
  "albums_assets_assets (fst (updateAlbums db)) = albums_assets_assets db"
  "members (fst (updateAlbums db)) k = members db k"
  "violatesInvariant (fst (updateAlbums db)) a = violatesInvariant db a"
  "assetsForeignKey (fst (updateAlbums db)) = assetsForeignKey db"
  by (simp_all add: updateAlbums_def members_albums_update violatesInvariant_albums_update
      assetsForeignKey_def)

lemma updated_row_valid:
  assumes "assetsForeignKey db"
  shows "\<not> violatesInvariant db
             (if violatesInvariant db a
              then a\<lparr>albumThumbnailAssetId := newThumbnail db a\<rparr> else a)"
proof (cases "violatesInvariant db a")
  case True
  show ?thesis
  proof (cases "members db (album_id a) = {}")
    case empty: True
    with newThumbnail_newest [OF assms, of a] have "newThumbnail db a = None"
      by simp
    with True empty show ?thesis
      by (simp add: violatesInvariant_def)
  next
    case False
    with newThumbnail_newest [OF assms, of a]
    have "\<exists>s\<in>set (assets db).
            newThumbnail db a = Some (asset_id s) \<and>
            asset_id s \<in> members db (album_id a) \<and>
            fileCreatedAt s = Max (memberTimes db (album_id a))"
      by simp
    then obtain s :: AssetEntity where
      "newThumbnail db a = Some (asset_id s)" "asset_id s \<in> members db (album_id a)"
      by blast
    with True show ?thesis
      by (simp add: violatesInvariant_def)
  qed
next
  case False
  then show ?thesis
    by simp
qed

lemma updateAlbums_valid:
  assumes "assetsForeignKey db" and "a' \<in> set (albums (fst (updateAlbums db)))"
  shows "\<not> violatesInvariant db a'"
proof -
  from assms(2)
  have "a' \<in> (\<lambda>a. if violatesInvariant db a
                   then a\<lparr>albumThumbnailAssetId := newThumbnail db a\<rparr> else a) `
               set (albums db)"
    by (simp add: albums_updateAlbums)
  then obtain a where
    "a' = (if violatesInvariant db a
           then a\<lparr>albumThumbnailAssetId := newThumbnail db a\<rparr> else a)"
    by (rule imageE)
  then show ?thesis
    using updated_row_valid [OF assms(1), of a] by simp
qed

lemma updateAlbums_fixpoint:
  assumes "\<forall>a\<in>set (albums db). \<not> violatesInvariant db a"
  shows "updateAlbums db = (db, 0)"
proof -
  have "filter (invalidThumbnailWhere db) (albums db) = []"
    using assms by (simp add: filter_empty_conv invalidThumbnailWhere_iff)
  moreover have "map (\<lambda>albums_row.
                  if invalidThumbnailWhere db albums_row
                  then albums_row\<lparr>albumThumbnailAssetId := newThumbnail db albums_row\<rparr>
                  else albums_row) (albums db) = albums db"
    using assms by (simp add: map_idI invalidThumbnailWhere_iff)
  ultimately show ?thesis
    by (simp add: updateAlbums_def)
qed

subsection \<open>The method around the statement\<close>

lemma updateThumbnails_connected:
  assumes "connected ds"
  shows "updateThumbnails ds =
           (Inr (if reportsAffected ds then Some (snd (updateAlbums (tables ds))) else None),
            ds\<lparr>tables := fst (updateAlbums (tables ds)), statements := Suc (statements ds)\<rparr>)"
  using assms by (simp add: updateThumbnails_def execute_def split: prod.split)

lemma updateThumbnails_disconnected:
  assumes "\<not> connected ds"
  shows "updateThumbnails ds = (Inl (rejection ds), ds)"
  using assms by (simp add: updateThumbnails_def execute_def)

lemma updateThumbnails_Inr:
  assumes "updateThumbnails ds = (Inr n, ds')"
  shows "connected ds"
    and "n = (if reportsAffected ds then Some (snd (updateAlbums (tables ds))) else None)"
    and "ds' = ds\<lparr>tables := fst (updateAlbums (tables ds)), statements := Suc (statements ds)\<rparr>"
proof -
  show c: "connected ds"
    using assms updateThumbnails_disconnected [of ds] by (cases "connected ds") simp_all
  show "n = (if reportsAffected ds then Some (snd (updateAlbums (tables ds))) else None)"
    and "ds' = ds\<lparr>tables := fst (updateAlbums (tables ds)), statements := Suc (statements ds)\<rparr>"
    using assms updateThumbnails_connected [OF c] by simp_all
qed





lemma getInvalidThumbnail_connected:
  assumes "connected ds"
  shows "getInvalidThumbnail ds =
           (Inr (map album_id (filter (violatesInvariant (tables ds)) (albums (tables ds)))),
            ds\<lparr>statements := Suc (statements ds)\<rparr>)"
  using assms
  by (simp add: getInvalidThumbnail_def getMany_def invalidThumbnailWhere_iff [abs_def])

lemmas scenario_defs =
  scenarioSource_def scenarioTables_def reconciledSource_def reconciledTables_def

lemmas query_defs =
  updateThumbnails_def execute_def updateAlbums_def invalidThumbnailWhere_def EXISTS_def
  albumHasAssets_def albumContainsThumbnail_def newThumbnail_def orderBy_DESC_def
  getInvalidThumbnail_def getMany_def

lemma scenario_run: "updateThumbnails scenarioSource = (Inr (Some 3), reconciledSource)"
  by (simp add: scenario_defs query_defs)

lemma scenario_foreign_key: "assetsForeignKey (tables scenarioSource)"
  by (simp add: scenario_defs assetsForeignKey_def)

subsection \<open>Which rows the statement changes\<close>

lemma updated_row_changed:
  assumes "assetsForeignKey db" and "violatesInvariant db a"
  shows "newThumbnail db a \<noteq> albumThumbnailAssetId a"
proof (cases "albumThumbnailAssetId a")
  case None
  with assms(2) have "members db (album_id a) \<noteq> {}"
    by (simp add: violatesInvariant_def)
  with newThumbnail_newest [OF assms(1), of a]
  have "\<exists>s\<in>set (assets db). newThumbnail db a = Some (asset_id s)"
    by auto
  with None show ?thesis
    by auto
next
  case (Some t)
  with assms(2) have t: "t \<notin> members db (album_id a)"
    by (simp add: violatesInvariant_def)
  show ?thesis
  proof (cases "members db (album_id a) = {}")
    case True
    with newThumbnail_newest [OF assms(1), of a] Some show ?thesis
      by simp
  next
    case False
    with newThumbnail_newest [OF assms(1), of a]
    have "\<exists>s\<in>set (assets db).
            newThumbnail db a = Some (asset_id s) \<and> asset_id s \<in> members db (album_id a)"
      by auto
    with t Some show ?thesis
      by auto
  qed
qed

lemma zip_map_same: "zip xs (map f xs) = map (\<lambda>x. (x, f x)) xs"
  by (induction xs) simp_all

lemma changed_count:
  fixes db :: "'m database"
  assumes "assetsForeignKey db"
  shows "length (filter (\<lambda>(a, a'). albumThumbnailAssetId a' \<noteq> albumThumbnailAssetId a)
                   (zip (albums db) (albums (fst (updateAlbums db))))) =
         snd (updateAlbums db)"
proof -
  have "(albumThumbnailAssetId
           (if violatesInvariant db a
            then a\<lparr>albumThumbnailAssetId := newThumbnail db a\<rparr> else a) \<noteq>
         albumThumbnailAssetId a) = violatesInvariant db a"
    for a :: "'m AlbumEntity_scheme"
    using updated_row_changed [OF assms, of a] by simp
  then show ?thesis
    by (simp add: albums_updateAlbums rowCount_updateAlbums zip_map_same filter_map comp_def)
qed

lemma filter_without_nth:
  assumes "i < length xs" and "\<not> P (xs ! i)"
  shows "filter P (take i xs @ drop (Suc i) xs) = filter P xs"
proof -
  have "filter P xs = filter P (take i xs @ xs ! i # drop (Suc i) xs)"
    using assms(1) by (simp add: id_take_nth_drop [symmetric])
  also have "\<dots> = filter P (take i xs @ drop (Suc i) xs)"
    using assms(2) by simp
  finally show ?thesis
    by simp
qed

subsection \<open>The store's plan\<close>

lemma plan_update_members: "members (db\<lparr>plan := p\<rparr>) k = members db k"
  by (simp add: members_def)

lemma plan_update_memberTimes: "memberTimes (db\<lparr>plan := p\<rparr>) k = memberTimes db k"
  by (simp add: memberTimes_def plan_update_members)

lemma plan_update_violatesInvariant:
  "violatesInvariant (db\<lparr>plan := p\<rparr>) a = violatesInvariant db a"
  by (simp add: violatesInvariant_def plan_update_members split: option.split)

lemma plan_update_foreign_key: "assetsForeignKey (db\<lparr>plan := p\<rparr>) = assetsForeignKey db"
  by (simp add: assetsForeignKey_def)

text \<open>
  A member asset with the maximal \<open>fileCreatedAt\<close> is what the subquery selects when
  the plan ranks its joined rows before all others.
\<close>

lemma newThumbnail_follows_plan:
  fixes db :: "'m database" and s :: AssetEntity
  assumes "s \<in> set (assets db)" and "asset_id s \<in> members db (album_id a)"
    and "\<forall>s'\<in>set (assets db).
           asset_id s' \<in> members db (album_id a) \<longrightarrow> fileCreatedAt s' \<le> fileCreatedAt s"
    and "plan db = (\<lambda>(assets_row, albums_assets2).
                      if asset_id assets_row = asset_id s then 0 else 1)"
  shows "newThumbnail db a = Some (asset_id s)"
proof -
  define J where "J = filter (\<lambda>(assets_row, albums_assets2).
                      assetsId albums_assets2 = asset_id assets_row \<and>
                      albumsId albums_assets2 = album_id a)
             (List.product (assets db) (albums_assets_assets db))"
  define key :: "AssetEntity \<times> albums_assets_row \<Rightarrow> int"
    where "key = (\<lambda>(assets_row, albums_assets2). fileCreatedAt assets_row)"
  have nt: "newThumbnail db a =
      (case take 1 (orderBy_DESC (plan db) key J) of [] \<Rightarrow> None
       | (assets_row, albums_assets2) # _ \<Rightarrow> Some (assetsId albums_assets2))"
    by (simp add: newThumbnail_def J_def key_def)
  have J: "\<And>s m. (s, m) \<in> set J \<longleftrightarrow>
      s \<in> set (assets db) \<and> m \<in> set (albums_assets_assets db) \<and>
      assetsId m = asset_id s \<and> albumsId m = album_id a"
    unfolding J_def by (rule set_joined)
  have mem: "\<And>s. s \<in> set (assets db) \<Longrightarrow>
      asset_id s \<in> members db (album_id a) \<longleftrightarrow> (\<exists>m. (s, m) \<in> set J)"
    by (auto simp: members_iff J)
  from assms(1,2) mem obtain m where sm: "(s, m) \<in> set J"
    by blast
  then have "orderBy_DESC (plan db) key J \<noteq> []"
    by (auto simp: orderBy_DESC_Nil)
  then obtain r rest where Cons: "orderBy_DESC (plan db) key J = r # rest"
    by (cases "orderBy_DESC (plan db) key J") simp_all
  obtain s0 m0 where r: "r = (s0, m0)"
    by (cases r)
  from orderBy_DESC_Cons [OF Cons]
  have in_J: "(s0, m0) \<in> set J"
    and top: "\<forall>r'\<in>set J. key r' \<le> key (s0, m0)"
    and first: "\<forall>r'\<in>set J. key r' = key (s0, m0) \<longrightarrow> plan db (s0, m0) \<le> plan db r'"
    by (simp_all add: r)
  have s0: "s0 \<in> set (assets db)" and eq: "assetsId m0 = asset_id s0"
    using in_J by (simp_all add: J)
  have "asset_id s0 \<in> members db (album_id a)"
    using in_J s0 mem by blast
  with assms(3) s0 have "fileCreatedAt s0 \<le> fileCreatedAt s"
    by blast
  moreover from top sm have "key (s, m) \<le> key (s0, m0)"
    by blast
  ultimately have "key (s, m) = key (s0, m0)"
    by (simp add: key_def)
  with first sm have "plan db (s0, m0) \<le> plan db (s, m)"
    by blast
  then have "asset_id s0 = asset_id s"
    by (simp add: assms(4) split: if_splits)
  then show ?thesis
    by (simp add: nt Cons r eq)
qed

lemmas tied_defs = tiedSource1_def tiedSource2_def tiedTables_def

lemma tied_runs:
  "updateThumbnails tiedSource1 =
     (Inr (Some 1),
      tiedSource1\<lparr>tables := (tables tiedSource1)\<lparr>albums :=
        [\<lparr>album_id = ''T'', ownerId = ''u'', albumThumbnailAssetId = Some ''b1'',
           createdAt = 10\<rparr>]\<rparr>, statements := 1\<rparr>)"
  "updateThumbnails tiedSource2 =
     (Inr (Some 1),
      tiedSource2\<lparr>tables := (tables tiedSource2)\<lparr>albums :=
        [\<lparr>album_id = ''T'', ownerId = ''u'', albumThumbnailAssetId = Some ''b2'',
           createdAt = 10\<rparr>]\<rparr>, statements := 1\<rparr>)"
  by (simp_all add: tied_defs query_defs)

subsection \<open>The grouped count\<close>

lemma length_filter_concat:
  "length (filter P (concat xss)) = sum_list (map (\<lambda>xs. length (filter P xs)) xss)"
  by (induction xss) simp_all

lemma sum_list_single_key:
  assumes "distinct (map f xs)" and "k \<in> f ` set xs"
  shows "sum_list (map (\<lambda>x. if f x = k then (c::nat) else 0) xs) = c"
  using assms
proof (induction xs)
  case Nil
  then show ?case by simp
next
  case (Cons x xs)
  show ?case
  proof (cases "f x = k")
    case True
    with Cons.prems(1) have "k \<notin> f ` set xs"
      by simp
    then have "\<forall>y\<in>set xs. f y \<noteq> k"
      by blast
    then have "sum_list (map (\<lambda>x. if f x = k then c else 0) xs) = 0"
      by (simp add: sum_list_eq_0_iff)
    with True show ?thesis by simp
  next
    case False
    with Cons.prems have "distinct (map f xs)" and "k \<in> f ` set xs"
      by auto
    with Cons.IH False show ?thesis by simp
  qed
qed

lemma fst_set_concat:
  assumes "\<And>x. fst ` set (g x) = {x}"
  shows "fst ` set (concat (map g xs)) = set xs"
  by (induction xs) (simp_all add: image_Un assms)

lemma count_joined_rows:
  "length (filter (\<lambda>(a, m). album_id a = k \<and> m \<noteq> None) (map (\<lambda>x. (album, Some x)) ms)) =
     (if album_id album = k then length ms else 0)"
  by (induction ms) simp_all

text \<open>The rows the left join yields for one album.\<close>

lemma leftJoin_rows_of_album:
  fixes M :: "albums_assets_row list" and album :: "'m AlbumEntity_scheme"
  defines "rows \<equiv> (case filter (\<lambda>albums_assets. albumsId albums_assets = album_id album) M of
                      [] \<Rightarrow> [(album, None)]
                    | matching \<Rightarrow> map (\<lambda>albums_assets. (album, Some albums_assets)) matching)"
  shows "fst ` set rows = {album}"
    and "length (filter (\<lambda>(a, m). album_id a = k \<and> m \<noteq> None) rows) =
           (if album_id album = k then length (filter (\<lambda>m. albumsId m = k) M) else 0)"
proof -
  define ms where "ms = filter (\<lambda>albums_assets. albumsId albums_assets = album_id album) M"
  have rows: "rows = (if ms = [] then [(album, None)] else map (\<lambda>x. (album, Some x)) ms)"
    by (cases ms) (simp_all add: rows_def ms_def [symmetric])
  show "fst ` set rows = {album}"
    by (cases ms) (auto simp: rows image_image)
  have "album_id album = k \<Longrightarrow> ms = filter (\<lambda>m. albumsId m = k) M"
    by (auto simp: ms_def)
  then show "length (filter (\<lambda>(a, m). album_id a = k \<and> m \<noteq> None) rows) =
           (if album_id album = k then length (filter (\<lambda>m. albumsId m = k) M) else 0)"
    by (cases "ms = []") (auto simp: rows count_joined_rows)
qed

lemma countByAlbums_keys:
  shows "fst ` set (countByAlbums ids db) = set ids \<inter> album_id ` set (albums db)"
    and "distinct (map fst (countByAlbums ids db))"
proof -
  define joined where
    "joined = filter (\<lambda>(album, albums_assets). album_id album \<in> set ids) (leftJoin db)"
  have keys: "map fst (countByAlbums ids db) =
                remdups (map (\<lambda>(album, albums_assets). album_id album) joined)"
    by (simp add: countByAlbums_def joined_def Let_def comp_def)
  have "fst ` set (leftJoin db) = set (albums db)"
    unfolding leftJoin_def by (rule fst_set_concat) (rule leftJoin_rows_of_album(1))
  then have "(\<lambda>(album, albums_assets). album_id album) ` set joined =
               set ids \<inter> album_id ` set (albums db)"
    by (force simp: joined_def)
  moreover have "fst ` set (countByAlbums ids db) = set (map fst (countByAlbums ids db))"
    by simp
  ultimately show "fst ` set (countByAlbums ids db) = set ids \<inter> album_id ` set (albums db)"
    unfolding keys by simp
  show "distinct (map fst (countByAlbums ids db))"
    by (simp add: keys)
qed

lemma countByAlbums_count:
  fixes db :: "'m database"
  assumes "albumsPrimaryKey db" and "(k, c) \<in> set (countByAlbums ids db)"
  shows "c = length (filter (\<lambda>m. albumsId m = k) (albums_assets_assets db))"
proof -
  define joined where
    "joined = filter (\<lambda>(album, albums_assets). album_id album \<in> set ids) (leftJoin db)"
  define g where "g = (\<lambda>album::'m AlbumEntity_scheme.
        case filter (\<lambda>albums_assets. albumsId albums_assets = album_id album)
               (albums_assets_assets db) of
          [] \<Rightarrow> [(album, None)]
        | matching \<Rightarrow> map (\<lambda>albums_assets. (album, Some albums_assets)) matching)"
  have g: "length (filter (\<lambda>(a, m). album_id a = k \<and> m \<noteq> None) (g album)) =
             (if album_id album = k
              then length (filter (\<lambda>m. albumsId m = k) (albums_assets_assets db)) else 0)"
    for album
    unfolding g_def by (rule leftJoin_rows_of_album(2))
  have "k \<in> fst ` set (countByAlbums ids db)"
    using assms(2) by force
  then have k: "k \<in> set ids" "k \<in> album_id ` set (albums db)"
    unfolding countByAlbums_keys(1) by simp_all
  from assms(2)
  have "c = length (filter (\<lambda>(album, albums_assets). album_id album = k \<and> albums_assets \<noteq> None)
                      joined)"
    by (auto simp: countByAlbums_def joined_def Let_def)
  also have "filter (\<lambda>(album, albums_assets). album_id album = k \<and> albums_assets \<noteq> None) joined =
             filter (\<lambda>(album, albums_assets). album_id album = k \<and> albums_assets \<noteq> None)
               (leftJoin db)"
    using k(1) by (auto simp: joined_def intro: filter_cong)
  also have "length \<dots> =
      sum_list (map (\<lambda>album. length (filter (\<lambda>(a, m). album_id a = k \<and> m \<noteq> None) (g album)))
        (albums db))"
    by (simp add: leftJoin_def length_filter_concat g_def comp_def)
  also have "\<dots> = sum_list (map (\<lambda>album. if album_id album = k
        then length (filter (\<lambda>m. albumsId m = k) (albums_assets_assets db)) else 0) (albums db))"
    by (simp only: g)
  also have "\<dots> = length (filter (\<lambda>m. albumsId m = k) (albums_assets_assets db))"
    using assms(1) k(2) by (simp add: albumsPrimaryKey_def sum_list_single_key)
  finally show ?thesis .
qed

section \<open>The claims\<close>

text \<open>
  C1. When the junction table references stored assets only and \<open>updateThumbnails\<close>
  completes, \<open>getInvalidThumbnail\<close> on the store it leaves returns the empty list: no
  album is left with a \<open>NULL\<close> thumbnail and a member asset, and none with a thumbnail
  that is not one of its members.
\<close>

theorem updateThumbnails_restores_invariant:
  assumes "assetsForeignKey (tables ds)" and "updateThumbnails ds = (Inr n, ds')"
  shows "fst (getInvalidThumbnail ds') = Inr [] \<and>
         (\<forall>a\<in>set (albums (tables ds')). \<not> violatesInvariant (tables ds') a)"
proof -
  note run = updateThumbnails_Inr [OF assms(2)]
  have tables: "tables ds' = fst (updateAlbums (tables ds))" and "connected ds'"
    using run(1) by (simp_all add: run(3))
  have valid: "\<forall>a\<in>set (albums (tables ds')). \<not> violatesInvariant (tables ds') a"
    using updateAlbums_valid [OF assms(1)] by (simp add: tables others_updateAlbums)
  then have "filter (violatesInvariant (tables ds')) (albums (tables ds')) = []"
    by (simp add: filter_empty_conv)
  then have "fst (getInvalidThumbnail ds') = Inr []"
    by (simp add: getInvalidThumbnail_connected [OF \<open>connected ds'\<close>])
  with valid show ?thesis
    by simp
qed

theorem updateThumbnails_restores_invariant_witness:
  "assetsForeignKey (tables scenarioSource) \<and>
   updateThumbnails scenarioSource = (Inr (Some 3), reconciledSource) \<and>
   fst (getInvalidThumbnail reconciledSource) = Inr []"
  using updateThumbnails_restores_invariant [OF scenario_foreign_key scenario_run]
    scenario_foreign_key scenario_run
  by simp

text \<open>
  C2. On a store that can be reached, \<open>getInvalidThumbnail\<close> returns exactly the
  identifiers of the albums that violate the invariant: the albums whose thumbnail is
  \<open>NULL\<close> although they have a member asset, and the albums whose thumbnail is an asset
  that is not one of their members. No other album is returned, and the tables stay as
  they are.
\<close>

theorem getInvalidThumbnail_returns_violations:
  assumes "connected ds"
  shows "\<exists>ids. fst (getInvalidThumbnail ds) = Inr ids \<and>
           ids = map album_id (filter (violatesInvariant (tables ds)) (albums (tables ds))) \<and>
           set ids = album_id ` {a \<in> set (albums (tables ds)). violatesInvariant (tables ds) a} \<and>
           tables (snd (getInvalidThumbnail ds)) = tables ds"
  by (simp add: getInvalidThumbnail_connected [OF assms])

theorem getInvalidThumbnail_returns_violations_witness:
  "connected scenarioSource \<and>
   fst (getInvalidThumbnail scenarioSource) = Inr [''X'', ''Y'', ''Z''] \<and>
   tables (snd (getInvalidThumbnail scenarioSource)) = tables scenarioSource"
  using getInvalidThumbnail_returns_violations [of scenarioSource]
  by (simp add: scenario_defs violatesInvariant_def members_def)

text \<open>
  C3. When the junction table references stored assets only and \<open>updateThumbnails\<close>
  completes, every album row that violated the invariant keeps its identifier and has as
  its thumbnail \<open>NULL\<close> when the album has no member, and otherwise a member asset whose
  \<open>fileCreatedAt\<close> is the maximum among the album's members.
\<close>

theorem updateThumbnails_sets_newest_member:
  fixes ds ds' :: "'m DataSource" and i :: nat
  defines "a \<equiv> albums (tables ds) ! i" and "a' \<equiv> albums (tables ds') ! i"
  assumes "assetsForeignKey (tables ds)" and "updateThumbnails ds = (Inr n, ds')"
    and "i < length (albums (tables ds))" and "violatesInvariant (tables ds) a"
  shows "album_id a' = album_id a \<and>
         (if members (tables ds) (album_id a) = {} then albumThumbnailAssetId a' = None
          else \<exists>s\<in>set (assets (tables ds)).
                 albumThumbnailAssetId a' = Some (asset_id s) \<and>
                 asset_id s \<in> members (tables ds) (album_id a) \<and>
                 fileCreatedAt s = Max (memberTimes (tables ds) (album_id a)))"
proof -
  note run = updateThumbnails_Inr [OF assms(4)]
  have "a' = a\<lparr>albumThumbnailAssetId := newThumbnail (tables ds) a\<rparr>"
    using assms(5,6) by (simp add: a_def a'_def run(3) albums_updateAlbums)
  then show ?thesis
    using newThumbnail_newest [OF assms(3), of a] by simp
qed

theorem updateThumbnails_sets_newest_member_witness:
  "assetsForeignKey (tables scenarioSource) \<and>
   updateThumbnails scenarioSource = (Inr (Some 3), reconciledSource) \<and>
   (0::nat) < length (albums (tables scenarioSource)) \<and>
   violatesInvariant (tables scenarioSource) (albums (tables scenarioSource) ! 0) \<and>
   members (tables scenarioSource) ''X'' = {''a1'', ''a2''} \<and>
   albumThumbnailAssetId (albums (tables reconciledSource) ! 0) = Some ''a2'' \<and>
   Max (memberTimes (tables scenarioSource) ''X'') = 6"
proof -
  have i: "(0::nat) < length (albums (tables scenarioSource))"
    and v: "violatesInvariant (tables scenarioSource) (albums (tables scenarioSource) ! 0)"
    by (simp_all add: scenario_defs violatesInvariant_def members_def)
  show ?thesis
    using updateThumbnails_sets_newest_member [OF scenario_foreign_key scenario_run i v]
      scenario_foreign_key scenario_run i v
    by (simp add: scenario_defs members_def memberTimes_def)
qed

text \<open>
  C4. When the junction table references stored assets only and \<open>updateThumbnails\<close>
  completes, a second run on the store it leaves corrects nothing: its statement matches
  no row, it returns the count zero (where the driver reports counts at all), and it
  leaves every table as it found it.
\<close>

theorem updateThumbnails_idempotent:
  assumes "assetsForeignKey (tables ds)" and "updateThumbnails ds = (Inr n, ds')"
  shows "snd (updateAlbums (tables ds')) = 0 \<and>
         fst (updateThumbnails ds') = Inr (if reportsAffected ds' then Some 0 else None) \<and>
         tables (snd (updateThumbnails ds')) = tables ds'"
proof -
  note run = updateThumbnails_Inr [OF assms(2)]
  have tables: "tables ds' = fst (updateAlbums (tables ds))" and c: "connected ds'"
    using run(1) by (simp_all add: run(3))
  have "\<forall>a\<in>set (albums (tables ds')). \<not> violatesInvariant (tables ds') a"
    using updateAlbums_valid [OF assms(1)] by (simp add: tables others_updateAlbums)
  then have "updateAlbums (tables ds') = (tables ds', 0)"
    by (rule updateAlbums_fixpoint)
  then show ?thesis
    by (simp add: updateThumbnails_connected [OF c])
qed

theorem updateThumbnails_idempotent_witness:
  "assetsForeignKey (tables scenarioSource) \<and>
   updateThumbnails scenarioSource = (Inr (Some 3), reconciledSource) \<and>
   updateThumbnails reconciledSource = (Inr (Some 0), reconciledSource\<lparr>statements := 2\<rparr>)"
  using updateThumbnails_idempotent [OF scenario_foreign_key scenario_run]
    scenario_foreign_key scenario_run
  by (simp add: scenario_defs query_defs)

text \<open>
  C5. An album row that satisfies the invariant (no thumbnail and no member, or a
  thumbnail that is one of its members) is left as it is by \<open>updateThumbnails\<close>, and
  it is not counted: the count is the number of violating rows, and it is the count the
  method returns on the store without that row.
\<close>

theorem updateThumbnails_keeps_valid_albums:
  fixes ds ds' :: "'m DataSource" and i :: nat
  defines "rows \<equiv> albums (tables ds)"
  assumes "updateThumbnails ds = (Inr n, ds')"
    and "i < length rows" and "\<not> violatesInvariant (tables ds) (rows ! i)"
  shows "albums (tables ds') ! i = rows ! i \<and>
         n = (if reportsAffected ds
              then Some (length (filter (violatesInvariant (tables ds)) rows)) else None) \<and>
         fst (updateThumbnails
                (ds\<lparr>tables := (tables ds)\<lparr>albums := take i rows @ drop (Suc i) rows\<rparr>\<rparr>)) = Inr n"
proof -
  note run = updateThumbnails_Inr [OF assms(2)]
  have "albums (tables ds') ! i = rows ! i"
    using assms(3,4) by (simp add: rows_def run(3) albums_updateAlbums)
  moreover have n: "n = (if reportsAffected ds
              then Some (length (filter (violatesInvariant (tables ds)) rows)) else None)"
    by (simp add: run(2) rowCount_updateAlbums rows_def)
  moreover have "filter (violatesInvariant (tables ds)) (take i rows @ drop (Suc i) rows) =
                 filter (violatesInvariant (tables ds)) rows"
    using assms(3,4) by (rule filter_without_nth)
  then have "fst (updateThumbnails
                (ds\<lparr>tables := (tables ds)\<lparr>albums := take i rows @ drop (Suc i) rows\<rparr>\<rparr>)) = Inr n"
    using run(1)
    by (simp add: updateThumbnails_connected rowCount_updateAlbums n
        violatesInvariant_albums_update [abs_def])
  ultimately show ?thesis
    by simp
qed

theorem updateThumbnails_keeps_valid_albums_witness:
  "updateThumbnails scenarioSource = (Inr (Some 3), reconciledSource) \<and>
   (3::nat) < length (albums (tables scenarioSource)) \<and>
   \<not> violatesInvariant (tables scenarioSource) (albums (tables scenarioSource) ! 3) \<and>
   albumThumbnailAssetId (albums (tables reconciledSource) ! 3) = Some ''a1'' \<and>
   albums (tables reconciledSource) ! 3 = albums (tables scenarioSource) ! 3"
proof -
  have i: "(3::nat) < length (albums (tables scenarioSource))"
    and v: "\<not> violatesInvariant (tables scenarioSource) (albums (tables scenarioSource) ! 3)"
    by (simp_all add: scenario_defs violatesInvariant_def members_def)
  show ?thesis
    using updateThumbnails_keeps_valid_albums [OF scenario_run i v] scenario_run i v
    by (simp add: scenario_defs)
qed

text \<open>
  C6. Whether it completes or fails, \<open>updateThumbnails\<close> leaves the tables
  \<open>assets\<close> and \<open>albums_assets_assets\<close> as they are and keeps the rows of
  \<open>albums\<close> in number and position; a row of \<open>albums\<close> differs from the row before at
  most in \<open>albumThumbnailAssetId\<close>, and a row that does not violate the invariant
  does not differ at all.
\<close>

theorem updateThumbnails_frame:
  fixes ds :: "'m DataSource"
  defines "ds' \<equiv> snd (updateThumbnails ds)"
  shows "assets (tables ds') = assets (tables ds) \<and>
         albums_assets_assets (tables ds') = albums_assets_assets (tables ds) \<and>
         length (albums (tables ds')) = length (albums (tables ds)) \<and>
         (\<forall>i<length (albums (tables ds)).
            albums (tables ds') ! i =
              (albums (tables ds) ! i)
                \<lparr>albumThumbnailAssetId := albumThumbnailAssetId (albums (tables ds') ! i)\<rparr> \<and>
            (\<not> violatesInvariant (tables ds) (albums (tables ds) ! i) \<longrightarrow>
               albums (tables ds') ! i = albums (tables ds) ! i))"
proof (cases "connected ds")
  case True
  then have "tables ds' = fst (updateAlbums (tables ds))"
    by (simp add: ds'_def updateThumbnails_connected)
  then show ?thesis
    by (simp add: others_updateAlbums albums_updateAlbums)
next
  case False
  then have "ds' = ds"
    by (simp add: ds'_def updateThumbnails_disconnected)
  then show ?thesis
    by simp
qed

theorem updateThumbnails_frame_witness:
  "assets (tables (snd (updateThumbnails scenarioSource))) = assets scenarioTables \<and>
   albums_assets_assets (tables (snd (updateThumbnails scenarioSource))) =
     albums_assets_assets scenarioTables \<and>
   map album_id (albums (tables (snd (updateThumbnails scenarioSource)))) =
     [''X'', ''Y'', ''Z'', ''W''] \<and>
   map ownerId (albums (tables (snd (updateThumbnails scenarioSource)))) =
     [''u'', ''u'', ''v'', ''v''] \<and>
   map createdAt (albums (tables (snd (updateThumbnails scenarioSource)))) =
     [10, 11, 12, 13]"
  using updateThumbnails_frame [of scenarioSource]
  unfolding scenario_run
  by (simp add: scenario_defs)

text \<open>
  C7. When the junction table references stored assets only and \<open>updateThumbnails\<close>
  completes, it returns the number of album rows whose thumbnail differs from the one
  before when the driver reports the rows a statement affected, and the value for
  unknown (\<open>undefined\<close>) when it does not. Unknown is returned in that case only, so it
  is never the count zero.
\<close>

theorem updateThumbnails_result:
  assumes "assetsForeignKey (tables ds)" and "updateThumbnails ds = (Inr n, ds')"
  shows "n = (if reportsAffected ds
              then Some (length (filter
                     (\<lambda>(a, a'). albumThumbnailAssetId a' \<noteq> albumThumbnailAssetId a)
                     (zip (albums (tables ds)) (albums (tables ds')))))
              else None) \<and>
         (n = None \<longleftrightarrow> \<not> reportsAffected ds) \<and> (n = Some 0 \<longrightarrow> reportsAffected ds)"
proof -
  note run = updateThumbnails_Inr [OF assms(2)]
  have "tables ds' = fst (updateAlbums (tables ds))"
    by (simp add: run(3))
  then show ?thesis
    by (simp add: run(2) changed_count [OF assms(1)])
qed

theorem updateThumbnails_result_witness:
  "assetsForeignKey (tables scenarioSource) \<and>
   updateThumbnails scenarioSource = (Inr (Some 3), reconciledSource) \<and>
   length (filter (\<lambda>(a, a'). albumThumbnailAssetId a' \<noteq> albumThumbnailAssetId a)
             (zip (albums (tables scenarioSource)) (albums (tables reconciledSource)))) = 3 \<and>
   fst (updateThumbnails (scenarioSource\<lparr>reportsAffected := False\<rparr>)) = Inr None \<and>
   fst (updateThumbnails reconciledSource) = Inr (Some 0)"
  using updateThumbnails_result [OF scenario_foreign_key scenario_run]
    scenario_foreign_key scenario_run
  by (simp add: scenario_defs query_defs)




text \<open>
  C9, as stated, fails. Two stores hold the same tables, row for row: album T has no
  thumbnail and the members b1 and b2 with the same \<open>fileCreatedAt\<close>. The stores differ
  in the plan for the subquery only, and \<open>updateThumbnails\<close> chooses b1 on one and b2
  on the other.
\<close>

theorem updateThumbnails_tie_break_counterexample:
  "albums (tables tiedSource1) = albums (tables tiedSource2) \<and>
   assets (tables tiedSource1) = assets (tables tiedSource2) \<and>
   albums_assets_assets (tables tiedSource1) = albums_assets_assets (tables tiedSource2) \<and>
   map albumThumbnailAssetId (albums (tables (snd (updateThumbnails tiedSource1)))) =
     [Some ''b1''] \<and>
   map albumThumbnailAssetId (albums (tables (snd (updateThumbnails tiedSource2)))) =
     [Some ''b2'']"
  by (simp add: tied_runs) (simp add: tied_defs)

text \<open>
  C9, amended. The query orders by \<open>fileCreatedAt\<close> alone, so for an album that
  violates the invariant the thumbnail \<open>updateThumbnails\<close> chooses is one of the member
  assets with the maximal \<open>fileCreatedAt\<close>, and which of them is decided by the plan
  of the store, not by the tables: on a store that can be reached and whose junction table
  references stored assets only, under every plan the choice is a member asset with the
  maximal \<open>fileCreatedAt\<close> of the album's members, and every member asset with the
  maximal \<open>fileCreatedAt\<close> is the choice under some plan.
\<close>

theorem updateThumbnails_tie_break:
  fixes ds :: "'m DataSource" and i :: nat and s :: AssetEntity
  defines "a \<equiv> albums (tables ds) ! i"
    and "chosen \<equiv> \<lambda>p. albumThumbnailAssetId
           (albums (tables (snd (updateThumbnails
              (ds\<lparr>tables := (tables ds)\<lparr>plan := p\<rparr>\<rparr>)))) ! i)"
  assumes "assetsForeignKey (tables ds)" and "connected ds"
    and "i < length (albums (tables ds))" and "violatesInvariant (tables ds) a"
    and "s \<in> set (assets (tables ds))"
    and "asset_id s \<in> members (tables ds) (album_id a)"
    and "fileCreatedAt s = Max (memberTimes (tables ds) (album_id a))"
  shows "(\<forall>p. \<exists>s'\<in>set (assets (tables ds)).
            chosen p = Some (asset_id s') \<and>
            asset_id s' \<in> members (tables ds) (album_id a) \<and>
            fileCreatedAt s' = Max (memberTimes (tables ds) (album_id a))) \<and>
         (\<exists>p. chosen p = Some (asset_id s))"
proof -
  have chosen: "chosen p = newThumbnail ((tables ds)\<lparr>plan := p\<rparr>) a" for p
    using assms(4,5,6)
    by (simp add: chosen_def a_def updateThumbnails_connected albums_updateAlbums
        plan_update_violatesInvariant)
  have "\<exists>s'\<in>set (assets (tables ds)).
          chosen p = Some (asset_id s') \<and>
          asset_id s' \<in> members (tables ds) (album_id a) \<and>
          fileCreatedAt s' = Max (memberTimes (tables ds) (album_id a))" for p
  proof -
    have "assetsForeignKey ((tables ds)\<lparr>plan := p\<rparr>)"
      using assms(3) by (simp add: plan_update_foreign_key)
    moreover have "members ((tables ds)\<lparr>plan := p\<rparr>) (album_id a) \<noteq> {}"
      using assms(8) by (auto simp: plan_update_members)
    ultimately
    have "\<exists>s'\<in>set (assets ((tables ds)\<lparr>plan := p\<rparr>)).
            newThumbnail ((tables ds)\<lparr>plan := p\<rparr>) a = Some (asset_id s') \<and>
            asset_id s' \<in> members ((tables ds)\<lparr>plan := p\<rparr>) (album_id a) \<and>
            fileCreatedAt s' = Max (memberTimes ((tables ds)\<lparr>plan := p\<rparr>) (album_id a))"
      using newThumbnail_newest [of "(tables ds)\<lparr>plan := p\<rparr>" a] by simp
    then show ?thesis
      by (simp add: chosen plan_update_members plan_update_memberTimes)
  qed
  moreover have "\<exists>p. chosen p = Some (asset_id s)"
  proof -
    define p :: "AssetEntity \<times> albums_assets_row \<Rightarrow> nat" where
      "p = (\<lambda>(assets_row, albums_assets2). if asset_id assets_row = asset_id s then 0 else 1)"
    have newest: "\<forall>s'\<in>set (assets (tables ds)).
        asset_id s' \<in> members (tables ds) (album_id a) \<longrightarrow> fileCreatedAt s' \<le> fileCreatedAt s"
      by (simp add: assms(9) memberTimes_def)
    have "newThumbnail ((tables ds)\<lparr>plan := p\<rparr>) a = Some (asset_id s)"
      by (rule newThumbnail_follows_plan)
        (simp_all add: assms(7,8) newest plan_update_members p_def)
    then show ?thesis
      by (auto simp: chosen)
  qed
  ultimately show ?thesis
    by blast
qed

theorem updateThumbnails_tie_break_witness:
  "assetsForeignKey (tables tiedSource1) \<and> connected tiedSource1 \<and>
   (0::nat) < length (albums (tables tiedSource1)) \<and>
   violatesInvariant (tables tiedSource1) (albums (tables tiedSource1) ! 0) \<and>
   \<lparr>asset_id = ''b2'', fileCreatedAt = 5\<rparr> \<in> set (assets (tables tiedSource1)) \<and>
   ''b2'' \<in> members (tables tiedSource1) ''T'' \<and>
   Max (memberTimes (tables tiedSource1) ''T'') = 5 \<and>
   (\<exists>p. albumThumbnailAssetId
           (albums (tables (snd (updateThumbnails
              (tiedSource1\<lparr>tables := (tables tiedSource1)\<lparr>plan := p\<rparr>\<rparr>)))) ! 0) =
         Some ''b2'')"
proof -
  have fk: "assetsForeignKey (tables tiedSource1)"
    and c: "connected tiedSource1"
    and i: "(0::nat) < length (albums (tables tiedSource1))"
    and v: "violatesInvariant (tables tiedSource1) (albums (tables tiedSource1) ! 0)"
    and s: "\<lparr>asset_id = ''b2'', fileCreatedAt = 5\<rparr> \<in> set (assets (tables tiedSource1))"
    and m: "asset_id \<lparr>asset_id = ''b2'', fileCreatedAt = 5\<rparr> \<in>
              members (tables tiedSource1) (album_id (albums (tables tiedSource1) ! 0))"
    and t: "fileCreatedAt \<lparr>asset_id = ''b2'', fileCreatedAt = 5\<rparr> =
              Max (memberTimes (tables tiedSource1) (album_id (albums (tables tiedSource1) ! 0)))"
    by (simp_all add: tied_defs assetsForeignKey_def violatesInvariant_def members_def
        memberTimes_def)
  have "\<exists>p. albumThumbnailAssetId
           (albums (tables (snd (updateThumbnails
              (tiedSource1\<lparr>tables := (tables tiedSource1)\<lparr>plan := p\<rparr>\<rparr>)))) ! 0) =
         Some ''b2''"
    using updateThumbnails_tie_break [OF fk c i v s m t] by simp
  moreover have "''b2'' \<in> members (tables tiedSource1) ''T''"
    and "Max (memberTimes (tables tiedSource1) ''T'') = 5"
    by (simp_all add: tied_defs members_def memberTimes_def)
  ultimately show ?thesis
    using fk c i v s by simp
qed

text \<open>
  C10. For the empty list of identifiers \<open>getAssetCountForIds\<close> returns the empty
  list and sends no statement to the store: the data source is as before (and the result
  does not depend on the store being reachable). For a list that is not empty, on a store
  that can be reached and whose album identifiers are a key, it sends one statement and
  returns one entry for each requested identifier that is the identifier of a stored
  album, and no other entry; the entry's count is the number of rows the junction table
  holds for the album, hence zero for an album without member assets.
\<close>

theorem getAssetCountForIds_counts:
  fixes ds :: "'m DataSource"
  shows "getAssetCountForIds [] ds = (Inr [], ds) \<and>
         (ids \<noteq> [] \<and> connected ds \<and> albumsPrimaryKey (tables ds) \<longrightarrow>
            (\<exists>found.
               getAssetCountForIds ids ds =
                 (Inr found, ds\<lparr>statements := Suc (statements ds)\<rparr>) \<and>
               distinct (map albumId found) \<and>
               set (map albumId found) = set ids \<inter> set (map album_id (albums (tables ds))) \<and>
               (\<forall>r\<in>set found.
                  assetCount r =
                    length (filter (\<lambda>m. albumsId m = albumId r)
                              (albums_assets_assets (tables ds))) \<and>
                  (members (tables ds) (albumId r) = {} \<longrightarrow> assetCount r = 0))))"
proof (intro conjI impI)
  show "getAssetCountForIds [] ds = (Inr [], ds)"
    by (simp add: getAssetCountForIds_def)
next
  assume pre: "ids \<noteq> [] \<and> connected ds \<and> albumsPrimaryKey (tables ds)"
  define counted where "counted = countByAlbums ids (tables ds)"
  define found where
    "found = map (\<lambda>(album_id, asset_count).
                    \<lparr>albumId = album_id, assetCount = asset_count\<rparr>) counted"
  have ids: "map albumId found = map fst counted"
    by (simp add: found_def comp_def case_prod_beta)
  have run: "getAssetCountForIds ids ds =
               (Inr found, ds\<lparr>statements := Suc (statements ds)\<rparr>)"
    using pre by (simp add: getAssetCountForIds_def getMany_def found_def counted_def)
  have "distinct (map albumId found)"
    unfolding ids counted_def by (rule countByAlbums_keys(2))
  moreover have "set (map albumId found) =
                   set ids \<inter> set (map album_id (albums (tables ds)))"
    unfolding ids counted_def using countByAlbums_keys(1) [of ids "tables ds"] by simp
  moreover have "assetCount r =
                   length (filter (\<lambda>m. albumsId m = albumId r)
                             (albums_assets_assets (tables ds))) \<and>
                 (members (tables ds) (albumId r) = {} \<longrightarrow> assetCount r = 0)"
    if "r \<in> set found" for r
  proof -
    from that obtain k c where kc: "(k, c) \<in> set counted"
      and r: "r = \<lparr>albumId = k, assetCount = c\<rparr>"
      by (auto simp: found_def)
    have "c = length (filter (\<lambda>m. albumsId m = k) (albums_assets_assets (tables ds)))"
      using pre kc unfolding counted_def by (simp add: countByAlbums_count)
    then show ?thesis
      by (simp add: r members_def)
  qed
  ultimately show "\<exists>found.
               getAssetCountForIds ids ds =
                 (Inr found, ds\<lparr>statements := Suc (statements ds)\<rparr>) \<and>
               distinct (map albumId found) \<and>
               set (map albumId found) = set ids \<inter> set (map album_id (albums (tables ds))) \<and>
               (\<forall>r\<in>set found.
                  assetCount r =
                    length (filter (\<lambda>m. albumsId m = albumId r)
                              (albums_assets_assets (tables ds))) \<and>
                  (members (tables ds) (albumId r) = {} \<longrightarrow> assetCount r = 0))"
    using run by blast
qed

theorem getAssetCountForIds_counts_witness:
  "getAssetCountForIds [] (scenarioSource\<lparr>connected := False\<rparr>) =
     (Inr [], scenarioSource\<lparr>connected := False\<rparr>) \<and>
   [''X'', ''Y'', ''Q'', ''X''] \<noteq> [] \<and> connected scenarioSource \<and>
   albumsPrimaryKey (tables scenarioSource) \<and>
   getAssetCountForIds [''X'', ''Y'', ''Q'', ''X''] scenarioSource =
     (Inr [\<lparr>albumId = ''X'', assetCount = 2\<rparr>, \<lparr>albumId = ''Y'', assetCount = 0\<rparr>],
      scenarioSource\<lparr>statements := 1\<rparr>)"
  using getAssetCountForIds_counts [of "scenarioSource\<lparr>connected := False\<rparr>" "[]"]
    getAssetCountForIds_counts [of scenarioSource "[''X'', ''Y'', ''Q'', ''X'']"]
  by (simp add: scenario_defs albumsPrimaryKey_def getAssetCountForIds_def getMany_def
      countByAlbums_def leftJoin_def)

end
